theory Spec2Isabelle
  imports Main
begin

section \<open>Errors\<close>

text \<open>
  Go strings and byte slices are sequences of bytes: both are modelled as \<open>string\<close>
  (a list of 8-bit \<open>char\<close>s).

  The three sentinel errors of smtp.go are constructors of their own; \<open>NetError\<close> is an
  error produced by the network libraries (net, net/smtp, crypto/tls), and
  \<open>Wrapped msg e\<close> is \<^verbatim>\<open>fmt.Errorf("msg: %w", e)\<close>.
\<close>

datatype error =
    ErrUnsupportedAuthExt
  | ErrFoundCRLF
  | ErrClientNotInitialized
  | NetError string
  | Wrapped string error

text \<open>
  \<^verbatim>\<open>errors.Is\<close>, for a target that is one of the sentinel errors: the target is found
  somewhere along the chain of wrapped errors. What \<^verbatim>\<open>fmt.Errorf\<close> returns is a pointer of
  its own, identical to no sentinel, so a wrapped error is never the target itself and
  the comparison is made below it.
\<close>

fun errors_Is :: "error \<Rightarrow> error \<Rightarrow> bool" where
  "errors_Is (Wrapped msg e) target = errors_Is e target"
| "errors_Is e target = (e = target)"

section \<open>The network, as the client sees it\<close>

text \<open>
  A handle (\<^verbatim>\<open>*smtp.Client\<close>) and a connection (\<^verbatim>\<open>net.Conn\<close>) are identified by the
  position in the log of the call that created them.
\<close>

type_synonym conn = nat
type_synonym handle = nat

datatype auth = PlainAuth string string string string

record tls_Config =
  ServerName :: string
  MinVersion :: nat

abbreviation VersionTLS12 :: nat where
  "VersionTLS12 \<equiv> 0x0303"

text \<open>Every call into the network libraries that performs I/O.\<close>

datatype call =
    DialContext string
  | SmtpNewClient conn string
  | Hello handle string
  | StartTLS handle tls_Config
  | Auth handle auth
  | Noop handle
  | Mail handle string
  | Rcpt handle string
  | Data handle
  | Write handle string
  | CloseWriter handle
  | Quit handle

text \<open>
  The log of the calls made so far is the state of the world. A server is any
  deterministic behaviour: its answer to a call (\<open>None\<close> is success) and the extensions it
  advertises may depend on everything that happened before.
\<close>

type_synonym log = "call list"

record server =
  respond :: "log \<Rightarrow> call \<Rightarrow> error option"
  advertises :: "log \<Rightarrow> handle \<Rightarrow> string \<Rightarrow> bool"

section \<open>smtp.go\<close>

abbreviation extStartTLS :: string where
  "extStartTLS \<equiv> ''STARTTLS''"

abbreviation extAuth :: string where
  "extAuth \<equiv> ''AUTH''"

record Options =
  Host :: string
  Port :: int
  Login :: string
  Password :: string

record Client =
  opts :: Options
  auth :: "auth option"
  client :: "handle option"

definition NewClient :: "Options \<Rightarrow> Client" where
  "NewClient os =
     \<lparr> opts = os,
       auth = Some (PlainAuth '''' (Login os) (Password os) (Host os)),
       client = None \<rparr>"

text \<open>\<^verbatim>\<open>strconv.Itoa\<close>: the decimal digits of an integer, with a minus sign when negative.\<close>

fun formatDecimal :: "nat \<Rightarrow> string" where
  "formatDecimal n =
     (if n < 10 then [char_of (48 + n)]
      else formatDecimal (n div 10) @ [char_of (48 + n mod 10)])"

declare formatDecimal.simps [simp del]

definition Itoa :: "int \<Rightarrow> string" where
  "Itoa i = (if i < 0 then CHR ''-'' # formatDecimal (nat (- i)) else formatDecimal (nat i))"

text \<open>\<^verbatim>\<open>net.JoinHostPort\<close>: a host with a colon in it is taken for a literal IPv6 address.\<close>

definition JoinHostPort :: "string \<Rightarrow> string \<Rightarrow> string" where
  "JoinHostPort host port =
     (if CHR '':'' \<in> set host then ''['' @ host @ '']:'' @ port else host @ '':'' @ port)"

text \<open>
  Lines 74 to 82 of Connect: the upgrade to TLS, attempted only when the server advertises
  STARTTLS.
\<close>

definition upgradeStep :: "server \<Rightarrow> handle \<Rightarrow> string \<Rightarrow> log \<Rightarrow> error option \<times> log" where
  "upgradeStep srv h host t =
     (if advertises srv t h extStartTLS then
        (let config = \<lparr> ServerName = host, MinVersion = VersionTLS12 \<rparr> in
         case respond srv t (StartTLS h config) of
           Some err \<Rightarrow> (Some (Wrapped ''failed to client.StartTLS'' err), t @ [StartTLS h config])
         | None \<Rightarrow> (None, t @ [StartTLS h config]))
      else (None, t))"

text \<open>
  Lines 84 to 92 of Connect: with an authentication strategy, the server must advertise
  AUTH before the exchange is attempted.
\<close>

definition authStep :: "server \<Rightarrow> handle \<Rightarrow> auth option \<Rightarrow> log \<Rightarrow> error option \<times> log" where
  "authStep srv h a t =
     (case a of
        None \<Rightarrow> (None, t)
      | Some au \<Rightarrow>
          if \<not> advertises srv t h extAuth then (Some ErrUnsupportedAuthExt, t)
          else (case respond srv t (Auth h au) of
                  Some err \<Rightarrow> (Some (Wrapped ''failed to client.Auth'' err), t @ [Auth h au])
                | None \<Rightarrow> (None, t @ [Auth h au])))"

text \<open>
  Connect returns its error, the client as it leaves it, and the log. The field
  \<open>client\<close> is assigned on the last line only, after every step has succeeded.
\<close>

definition Connect :: "server \<Rightarrow> Client \<Rightarrow> log \<Rightarrow> error option \<times> Client \<times> log" where
  "Connect srv c t =
     (let host = Host (opts c);
          addr = JoinHostPort host (Itoa (Port (opts c)));
          conn = length t;
          h = Suc (length t)
      in
      case respond srv t (DialContext addr) of
        Some err \<Rightarrow>
          (Some (Wrapped (''failed to dialer.DialContext, address: '' @ addr) err), c,
           t @ [DialContext addr])
      | None \<Rightarrow>
     (case respond srv (t @ [DialContext addr]) (SmtpNewClient conn host) of
        Some err \<Rightarrow>
          (Some (Wrapped ''failed to smtp.NewClient'' err), c,
           t @ [DialContext addr, SmtpNewClient conn host])
      | None \<Rightarrow>
     (case respond srv (t @ [DialContext addr, SmtpNewClient conn host]) (Hello h host) of
        Some err \<Rightarrow>
          (Some (Wrapped ''failed to client.Hello'' err), c,
           t @ [DialContext addr, SmtpNewClient conn host, Hello h host])
      | None \<Rightarrow>
     (case upgradeStep srv h host
             (t @ [DialContext addr, SmtpNewClient conn host, Hello h host]) of
        (Some err, t1) \<Rightarrow> (Some err, c, t1)
      | (None, t1) \<Rightarrow>
     (case authStep srv h (auth c) t1 of
        (Some err, t2) \<Rightarrow> (Some err, c, t2)
      | (None, t2) \<Rightarrow> (None, c\<lparr>client := Some h\<rparr>, t2))))))"

definition EnsureConnected :: "server \<Rightarrow> Client \<Rightarrow> log \<Rightarrow> error option \<times> Client \<times> log" where
  "EnsureConnected srv c t =
     (case client c of
        Some h \<Rightarrow>
          (case respond srv t (Noop h) of
             Some err \<Rightarrow> Connect srv c (t @ [Noop h])
           | None \<Rightarrow> (None, c, t @ [Noop h]))
      | None \<Rightarrow> Connect srv c t)"

text \<open>\<^verbatim>\<open>strings.ContainsAny\<close>, for a set of ASCII characters: a byte of the line is one of them.\<close>

definition ContainsAny :: "string \<Rightarrow> string \<Rightarrow> bool" where
  "ContainsAny s chars = list_ex (\<lambda>c. c \<in> set chars) s"

abbreviation CR :: char where
  "CR \<equiv> CHR 0x0D"

abbreviation LF :: char where
  "LF \<equiv> CHR 0x0A"

definition validateLine :: "string \<Rightarrow> error option" where
  "validateLine line = (if ContainsAny line [CR, LF] then Some ErrFoundCRLF else None)"

text \<open>The first loop of Send: the recipients are validated in order, up to the first error.\<close>

fun validateRecipients :: "string list \<Rightarrow> error option" where
  "validateRecipients [] = None"
| "validateRecipients (recp # rest) =
     (case validateLine recp of
        Some err \<Rightarrow> Some (Wrapped ''failed to validateLine'' err)
      | None \<Rightarrow> validateRecipients rest)"

text \<open>The second loop of Send: one RCPT per recipient, stopping at the first rejection.\<close>

fun sendRecipients :: "server \<Rightarrow> handle \<Rightarrow> string list \<Rightarrow> log \<Rightarrow> error option \<times> log" where
  "sendRecipients srv h [] t = (None, t)"
| "sendRecipients srv h (addr # rest) t =
     (case respond srv t (Rcpt h addr) of
        Some err \<Rightarrow> (Some (Wrapped ''failed to client.Rcpt'' err), t @ [Rcpt h addr])
      | None \<Rightarrow> sendRecipients srv h rest (t @ [Rcpt h addr]))"

definition Send :: "server \<Rightarrow> Client \<Rightarrow> string list \<Rightarrow> string \<Rightarrow> string \<Rightarrow> log
    \<Rightarrow> error option \<times> Client \<times> log" where
  "Send srv c to from msg t =
     (case validateLine from of
        Some err \<Rightarrow> (Some (Wrapped ''failed to validateLine'' err), c, t)
      | None \<Rightarrow>
     (case validateRecipients to of
        Some err \<Rightarrow> (Some err, c, t)
      | None \<Rightarrow>
     (case client c of
        None \<Rightarrow> (Some ErrClientNotInitialized, c, t)
      | Some h \<Rightarrow>
     (case respond srv t (Mail h from) of
        Some err \<Rightarrow> (Some (Wrapped ''failed to client.Mail'' err), c, t @ [Mail h from])
      | None \<Rightarrow>
     (case sendRecipients srv h to (t @ [Mail h from]) of
        (Some err, t1) \<Rightarrow> (Some err, c, t1)
      | (None, t1) \<Rightarrow>
     (case respond srv t1 (Data h) of
        Some err \<Rightarrow> (Some (Wrapped ''failed to client.Data'' err), c, t1 @ [Data h])
      | None \<Rightarrow>
     (case respond srv (t1 @ [Data h]) (Write h msg) of
        Some err \<Rightarrow>
          (Some (Wrapped ''failed to write message'' err), c, t1 @ [Data h, Write h msg])
      | None \<Rightarrow>
     (case respond srv (t1 @ [Data h, Write h msg]) (CloseWriter h) of
        Some err \<Rightarrow>
          (Some (Wrapped ''failed to close message'' err), c,
           t1 @ [Data h, Write h msg, CloseWriter h])
      | None \<Rightarrow> (None, c, t1 @ [Data h, Write h msg, CloseWriter h])))))))))"

text \<open>Close returns what QUIT returned; it assigns no field of the client.\<close>

definition Close :: "server \<Rightarrow> Client \<Rightarrow> log \<Rightarrow> error option \<times> Client \<times> log" where
  "Close srv c t =
     (case client c of
        Some h \<Rightarrow> (respond srv t (Quit h), c, t @ [Quit h])
      | None \<Rightarrow> (None, c, t))"

section \<open>encoding/base64, standard encoding\<close>

text \<open>
  Modelled from the spec: the base64 encoder with the standard padded alphabet, which
  section 6 lists as an external dependency. Build calls Go's \<^verbatim>\<open>encoding/base64\<close>, which
  is standard library and not part of the repository. \<open>Encode\<close> follows
  \<^verbatim>\<open>base64.StdEncoding.Encode\<close>: three bytes are packed into a 24-bit value and cut into
  four 6-bit indices of the alphabet; a remainder of one or two bytes is padded with
  \<open>=\<close>. The values stay below \<open>2 ^ 24\<close>, so Go's \<^verbatim>\<open>uint\<close> never wraps and \<open>nat\<close> is exact.
\<close>

unbundle bit_operations_syntax

definition encodeStd :: string where
  "encodeStd = ''ABCDEFGHIJKLMNOPQRSTUVWXYZabcdefghijklmnopqrstuvwxyz0123456789+/''"

abbreviation padChar :: char where
  "padChar \<equiv> CHR ''=''"

definition EncodedLen :: "nat \<Rightarrow> nat" where
  "EncodedLen n = (n + 2) div 3 * 4"

definition sextet :: "nat \<Rightarrow> nat \<Rightarrow> char" where
  "sextet val k = encodeStd ! (drop_bit k val AND 0x3F)"

fun Encode :: "string \<Rightarrow> string" where
  "Encode (a # b # c # rest) =
     (let val = push_bit 16 (of_char a) OR push_bit 8 (of_char b) OR of_char c
      in [sextet val 18, sextet val 12, sextet val 6, sextet val 0]) @ Encode rest"
| "Encode [a, b] =
     (let val = push_bit 16 (of_char a) OR push_bit 8 (of_char b)
      in [sextet val 18, sextet val 12, sextet val 6, padChar])"
| "Encode [a] =
     (let val = push_bit 16 (of_char a)
      in [sextet val 18, sextet val 12, padChar, padChar])"
| "Encode [] = []"

text \<open>
  Modelled from the spec: the decoder of the same encoding, by which the specification
  states that an attachment is encoded without loss; no code of the repository decodes.
  \<open>DecodeString\<close> follows \<^verbatim>\<open>base64.StdEncoding.DecodeString\<close>: carriage returns and line
  feeds are skipped, every other byte must be in the alphabet, the input is read four
  characters at a time, and padding is accepted in the last quantum only. \<open>None\<close> is
  Go's \<^verbatim>\<open>CorruptInputError\<close>.
\<close>

definition decodeMap :: "char \<Rightarrow> nat option" where
  "decodeMap = map_of (zip encodeStd [0..<64])"

definition assemble :: "nat \<Rightarrow> nat \<Rightarrow> nat \<Rightarrow> nat \<Rightarrow> nat" where
  "assemble w x y z = push_bit 18 w OR push_bit 12 x OR push_bit 6 y OR z"

fun decodeQuanta :: "string \<Rightarrow> string option" where
  "decodeQuanta [] = Some []"
| "decodeQuanta (a # b # c # d # rest) =
     (if rest = [] \<and> d = padChar then
        (if c = padChar then
           (case (decodeMap a, decodeMap b) of
              (Some w, Some x) \<Rightarrow> Some [char_of (drop_bit 16 (assemble w x 0 0))]
            | _ \<Rightarrow> None)
         else
           (case (decodeMap a, decodeMap b, decodeMap c) of
              (Some w, Some x, Some y) \<Rightarrow>
                Some [char_of (drop_bit 16 (assemble w x y 0)),
                      char_of (drop_bit 8 (assemble w x y 0))]
            | _ \<Rightarrow> None))
      else
        (case (decodeMap a, decodeMap b, decodeMap c, decodeMap d) of
           (Some w, Some x, Some y, Some z) \<Rightarrow>
             (case decodeQuanta rest of
                Some bytes \<Rightarrow>
                  Some (char_of (drop_bit 16 (assemble w x y z)) #
                        char_of (drop_bit 8 (assemble w x y z)) #
                        char_of (assemble w x y z) # bytes)
              | None \<Rightarrow> None)
         | _ \<Rightarrow> None))"
| "decodeQuanta _ = None"

definition DecodeString :: "string \<Rightarrow> string option" where
  "DecodeString s = decodeQuanta (filter (\<lambda>ch. ch \<noteq> CR \<and> ch \<noteq> LF) s)"

section \<open>The message builder\<close>

abbreviation boundary :: string where
  "boundary \<equiv> ''mail-boundary''"

text \<open>
  The field \<^verbatim>\<open>from\<close> of Email is \<open>from'\<close> here, \<open>from\<close> being a keyword. A fresh
  Email has the nil slice of attachments, the empty list.
\<close>

record attachment =
  name :: string
  data :: string

record Email =
  to :: "string list"
  from' :: string
  subject :: string
  body :: string
  attachments :: "attachment list"

definition NewEmail :: "string list \<Rightarrow> string \<Rightarrow> string \<Rightarrow> string \<Rightarrow> Email" where
  "NewEmail rcpts sndr subj txt =
     \<lparr> to = rcpts, from' = sndr, subject = subj, body = txt, attachments = [] \<rparr>"

definition Attach :: "Email \<Rightarrow> string \<Rightarrow> string \<Rightarrow> Email" where
  "Attach e nm dt =
     e\<lparr>attachments := attachments e @ [\<lparr> name = nm, data = dt \<rparr>]\<rparr>"

text \<open>\<^verbatim>\<open>strings.Join\<close>.\<close>

fun Join :: "string list \<Rightarrow> string \<Rightarrow> string" where
  "Join [] sep = []"
| "Join [x] sep = x"
| "Join (x # xs) sep = x @ sep @ Join xs sep"

text \<open>
  The loop of Build over the attachments: each round appends one part to the buffer.
  The slice \<open>b\<close> has \<open>EncodedLen (length (data atch))\<close> bytes and Encode fills all of them.
\<close>

fun writeAttachments :: "attachment list \<Rightarrow> string \<Rightarrow> string" where
  "writeAttachments [] buf = buf"
| "writeAttachments (atch # rest) buf =
     writeAttachments rest
       (buf @ (CR # LF # CR # LF # ''--'' @ boundary @ [CR, LF])
            @ (''Content-Type: text/plain; charset='' @ [CHR 0x22] @ ''utf-8'' @ [CHR 0x22, CR, LF])
            @ (''Content-Transfer-Encoding: base64'' @ [CR, LF])
            @ (''Content-Disposition: attachment; filename='' @ name atch @ [CR, LF])
            @ (''Content-ID: <'' @ name atch @ ''>'' @ [CR, LF, CR, LF])
            @ Encode (data atch))"

definition Build :: "Email \<Rightarrow> string" where
  "Build e =
     (let buf = [];
          buf = buf @ (''From: '' @ from' e @ [CR, LF]);
          buf = buf @ (''To: '' @ Join (to e) '';'' @ [CR, LF]);
          buf = buf @ (''Subject: '' @ subject e @ [CR, LF]);
          buf = buf @ (''MIME-Version: 1.0'' @ [CR, LF]);
          buf = buf @ (''Content-Type: multipart/mixed; boundary='' @ boundary @ [CR, LF]);
          buf = buf @ (CR # LF # ''--'' @ boundary @ [CR, LF]);
          buf = buf @ (''Content-Type: text/plain; charset='' @ [CHR 0x22] @ ''utf-8''
                        @ [CHR 0x22, CR, LF]);
          buf = buf @ (CR # LF # body e);
          buf = writeAttachments (attachments e) buf;
          buf = buf @ (CR # LF # CR # LF # ''--'' @ boundary @ ''--'')
      in buf)"

section \<open>Concrete servers and inputs\<close>

text \<open>A server that accepts every command and advertises every extension.\<close>

definition acceptAll :: server where
  "acceptAll = \<lparr> respond = (\<lambda>t c. None), advertises = (\<lambda>t h ext. True) \<rparr>"

text \<open>A server that accepts every command and advertises STARTTLS but not AUTH.\<close>

definition withoutAuth :: server where
  "withoutAuth = \<lparr> respond = (\<lambda>t c. None), advertises = (\<lambda>t h ext. ext = extStartTLS) \<rparr>"

text \<open>A server that is reachable for the first dial only.\<close>

definition goesDown :: server where
  "goesDown =
     \<lparr> respond = (\<lambda>t c. case c of
                          DialContext addr \<Rightarrow>
                            if t = [] then None else Some (NetError ''connection refused'')
                        | _ \<Rightarrow> None),
       advertises = (\<lambda>t h ext. True) \<rparr>"

text \<open>A server that answers QUIT with an error.\<close>

definition rejectsQuit :: server where
  "rejectsQuit =
     \<lparr> respond = (\<lambda>t c. case c of
                          Quit h \<Rightarrow> Some (NetError ''421 service not available'')
                        | _ \<Rightarrow> None),
       advertises = (\<lambda>t h ext. True) \<rparr>"


text \<open>The credentials of the integration tests.\<close>

definition testOpts :: Options where
  "testOpts =
     \<lparr> Host = ''localhost'', Port = 1025, Login = ''integration-test-user'',
       Password = ''integration-test-password'' \<rparr>"

text \<open>Two calls of Connect in a row on a fresh client, against the server that goes down.\<close>

definition connectedOnce :: "error option \<times> Client \<times> log" where
  "connectedOnce = Connect goesDown (NewClient testOpts) []"

definition connectedTwice :: "error option \<times> Client \<times> log" where
  "connectedTwice = Connect goesDown (fst (snd connectedOnce)) (snd (snd connectedOnce))"

text \<open>Connect and then Close on a fresh client, against the server that accepts everything.\<close>

definition connected :: "error option \<times> Client \<times> log" where
  "connected = Connect acceptAll (NewClient testOpts) []"

definition closed :: "error option \<times> Client \<times> log" where
  "closed = Close acceptAll (fst (snd connected)) (snd (snd connected))"

section \<open>Reading the log\<close>

text \<open>The calls \<open>cs\<close>, issued one after the other from the log \<open>t\<close>, were all answered without error.\<close>

fun answeredOK :: "server \<Rightarrow> log \<Rightarrow> call list \<Rightarrow> bool" where
  "answeredOK srv t [] = True"
| "answeredOK srv t (c # cs) = (respond srv t c = None \<and> answeredOK srv (t @ [c]) cs)"

text \<open>The call is an authentication exchange.\<close>

fun isAuth :: "call \<Rightarrow> bool" where
  "isAuth (Auth h a) = True"
| "isAuth _ = False"

text \<open>
  The loop of the tests that attaches a list of attachments to an Email, one call of
  Attach each, in order.
\<close>

definition attachAll :: "Email \<Rightarrow> attachment list \<Rightarrow> Email" where
  "attachAll e atchs = fold (\<lambda>atch e'. Attach e' (name atch) (data atch)) atchs e"

section \<open>The layout of a message, as the specification describes it\<close>

text \<open>
  Section 4.2 of the specification: a header block of CRLF-terminated lines, the body
  part after the opening boundary delimiter, one part per attachment made of a boundary
  delimiter, four header lines, a blank line and the base64 text, and the closing
  delimiter with nothing after it. These are compared with what Build writes.
\<close>

definition crlfLines :: "string list \<Rightarrow> string" where
  "crlfLines ls = concat (map (\<lambda>l. l @ [CR, LF]) ls)"

definition specHeaderBlock :: "string list \<Rightarrow> string \<Rightarrow> string \<Rightarrow> string" where
  "specHeaderBlock rcpts sndr subj =
     crlfLines [''From: '' @ sndr, ''To: '' @ Join rcpts '';'', ''Subject: '' @ subj,
                ''MIME-Version: 1.0'',
                ''Content-Type: multipart/mixed; boundary=mail-boundary'']"

definition specBodyPart :: "string \<Rightarrow> string" where
  "specBodyPart txt =
     crlfLines ['''', ''--mail-boundary'',
                ''Content-Type: text/plain; charset='' @ [CHR 0x22] @ ''utf-8'' @ [CHR 0x22],
                ''''] @ txt"

definition specPartHead :: "string \<Rightarrow> string" where
  "specPartHead nm =
     crlfLines ['''', '''', ''--mail-boundary'',
                ''Content-Type: text/plain; charset='' @ [CHR 0x22] @ ''utf-8'' @ [CHR 0x22],
                ''Content-Transfer-Encoding: base64'',
                ''Content-Disposition: attachment; filename='' @ nm,
                ''Content-ID: <'' @ nm @ ''>'',
                '''']"

definition specClosing :: string where
  "specClosing = crlfLines ['''', ''''] @ ''--mail-boundary--''"

section \<open>Reading the output\<close>

text \<open>
  \<open>crlfOnly prev s\<close>: every line feed of \<open>s\<close> comes right after a carriage return,
  \<open>prev\<close> being the byte before \<open>s\<close>. \<open>noBareLF s\<close>: the same for \<open>s\<close> on its own.
\<close>

fun crlfOnly :: "char \<Rightarrow> string \<Rightarrow> bool" where
  "crlfOnly prev [] = True"
| "crlfOnly prev (ch # rest) = ((ch = LF \<longrightarrow> prev = CR) \<and> crlfOnly ch rest)"

definition noBareLF :: "string \<Rightarrow> bool" where
  "noBareLF s = crlfOnly (CHR 0x00) s"

text \<open>The messages of the tests and of the scenarios.\<close>

definition scenarioEmail :: Email where
  "scenarioEmail = NewEmail [''to@domain.com''] ''from@domain.com'' ''S'' ''B''"

definition injectedEmail :: Email where
  "injectedEmail = NewEmail [''to@domain.com''] (''a'' @ [LF] @ ''b'') ''S'' ''B''"

definition testAttachment :: attachment where
  "testAttachment = \<lparr> name = ''attachment_1.txt'', data = ''attachment_1.txt'' \<rparr>"

section \<open>Send: validation\<close>

lemma ContainsAny_CRLF: "ContainsAny s [CR, LF] \<longleftrightarrow> CR \<in> set s \<or> LF \<in> set s"
  by (auto simp: ContainsAny_def list_ex_iff)

lemma validateLine_None: "validateLine s = None \<longleftrightarrow> CR \<notin> set s \<and> LF \<notin> set s"
  by (simp add: validateLine_def ContainsAny_CRLF)

lemma validateLine_Some: "validateLine s = Some e \<longleftrightarrow> e = ErrFoundCRLF \<and> (CR \<in> set s \<or> LF \<in> set s)"
  by (auto simp: validateLine_def ContainsAny_CRLF)

lemma validateRecipients_None:
  "validateRecipients rcpts = None \<longleftrightarrow> (\<forall>r \<in> set rcpts. CR \<notin> set r \<and> LF \<notin> set r)"
  by (induction rcpts) (auto simp: validateLine_None validateLine_Some split: option.splits)

lemma validateRecipients_Some:
  "validateRecipients rcpts = Some e \<Longrightarrow> e = Wrapped ''failed to validateLine'' ErrFoundCRLF"
  by (induction rcpts) (auto simp: validateLine_Some split: option.splits)

lemma Send_invalid:
  assumes "CR \<in> set sndr \<or> LF \<in> set sndr \<or> (\<exists>r \<in> set rcpts. CR \<in> set r \<or> LF \<in> set r)"
  shows "Send srv c rcpts sndr msg t =
           (Some (Wrapped ''failed to validateLine'' ErrFoundCRLF), c, t)"
proof (cases "validateLine sndr")
  case (Some e)
  then have "e = ErrFoundCRLF"
    by (simp add: validateLine_Some)
  with Some show ?thesis
    by (simp add: Send_def)
next
  case None
  with assms have "validateRecipients rcpts \<noteq> None"
    by (auto simp: validateLine_None validateRecipients_None)
  then obtain e where "validateRecipients rcpts = Some e"
    by auto
  with None show ?thesis
    by (auto simp: Send_def dest: validateRecipients_Some)
qed

section \<open>Send: the claims\<close>

text \<open>
  C3. When the sender or any recipient contains a carriage return or a line feed, Send
  returns ErrFoundCRLF (wrapped once, so that \<^verbatim>\<open>errors.Is\<close> finds it) and performs no
  network I/O: the log of calls is the one it started with, so no MAIL, RCPT or DATA was
  issued, whatever the server and whether or not a handle exists.
\<close>

theorem Send_CRLF_rejected_without_IO:
  assumes "CR \<in> set sndr \<or> LF \<in> set sndr \<or> (\<exists>r \<in> set rcpts. CR \<in> set r \<or> LF \<in> set r)"
  shows "Send srv c rcpts sndr msg t =
           (Some (Wrapped ''failed to validateLine'' ErrFoundCRLF), c, t)
         \<and> errors_Is (Wrapped ''failed to validateLine'' ErrFoundCRLF) ErrFoundCRLF"
  using Send_invalid [OF assms] by simp

theorem Send_CRLF_rejected_without_IO_witness:
  "Send acceptAll ((NewClient testOpts)\<lparr>client := Some 1\<rparr>)
        [''to@domain.com'', ''evil@domain.com'' @ [CR, LF] @ ''DATA''] ''from@domain.com'' ''hello''
        [DialContext ''localhost:1025'', SmtpNewClient 0 ''localhost'', Hello 1 ''localhost'']
     = (Some (Wrapped ''failed to validateLine'' ErrFoundCRLF),
        (NewClient testOpts)\<lparr>client := Some 1\<rparr>,
        [DialContext ''localhost:1025'', SmtpNewClient 0 ''localhost'', Hello 1 ''localhost''])
   \<and> errors_Is (Wrapped ''failed to validateLine'' ErrFoundCRLF) ErrFoundCRLF"
  by (rule Send_CRLF_rejected_without_IO) simp

text \<open>
  C5. On a client with no handle, Send with a sender and recipients free of carriage
  returns and line feeds returns ErrClientNotInitialized and makes no network call: the
  log is unchanged (in particular no dial: Send never connects) and the client still has
  no handle.
\<close>

theorem Send_not_connected:
  assumes "client c = None"
    and "CR \<notin> set sndr \<and> LF \<notin> set sndr"
    and "\<forall>r \<in> set rcpts. CR \<notin> set r \<and> LF \<notin> set r"
  shows "Send srv c rcpts sndr msg t = (Some ErrClientNotInitialized, c, t)"
proof -
  have "validateLine sndr = None"
    using assms(2) by (simp add: validateLine_None)
  moreover have "validateRecipients rcpts = None"
    using assms(3) by (simp add: validateRecipients_None)
  ultimately show ?thesis
    using assms(1) by (simp add: Send_def)
qed

theorem Send_not_connected_witness:
  "Send acceptAll (NewClient testOpts) [''to@domain.com''] ''from@domain.com'' ''hello'' []
     = (Some ErrClientNotInitialized, NewClient testOpts, [])"
  by (rule Send_not_connected) (simp_all add: NewClient_def)

text \<open>
  C10. Validation comes before the check for a handle: on a client with no handle, a
  sender or recipient with a carriage return or a line feed makes Send return the wrapped
  ErrFoundCRLF, which is not ErrClientNotInitialized and does not wrap it.
\<close>

theorem Send_validates_before_handle_check:
  assumes "client c = None"
    and "CR \<in> set sndr \<or> LF \<in> set sndr \<or> (\<exists>r \<in> set rcpts. CR \<in> set r \<or> LF \<in> set r)"
  shows "fst (Send srv c rcpts sndr msg t) = Some (Wrapped ''failed to validateLine'' ErrFoundCRLF)
         \<and> errors_Is (Wrapped ''failed to validateLine'' ErrFoundCRLF) ErrFoundCRLF
         \<and> \<not> errors_Is (Wrapped ''failed to validateLine'' ErrFoundCRLF) ErrClientNotInitialized
         \<and> fst (Send srv c rcpts sndr msg t) \<noteq> Some ErrClientNotInitialized"
  using Send_invalid [OF assms(2)] by simp

theorem Send_validates_before_handle_check_witness:
  "fst (Send acceptAll (NewClient testOpts) [''to@domain.com''] (''from@domain.com'' @ [LF]) ''hello'' [])
     = Some (Wrapped ''failed to validateLine'' ErrFoundCRLF)
   \<and> errors_Is (Wrapped ''failed to validateLine'' ErrFoundCRLF) ErrFoundCRLF
   \<and> \<not> errors_Is (Wrapped ''failed to validateLine'' ErrFoundCRLF) ErrClientNotInitialized
   \<and> fst (Send acceptAll (NewClient testOpts) [''to@domain.com''] (''from@domain.com'' @ [LF]) ''hello'' [])
       \<noteq> Some ErrClientNotInitialized"
  by (rule Send_validates_before_handle_check) (simp_all add: NewClient_def)

section \<open>Connect and Close\<close>

lemma Itoa_1025: "Itoa 1025 = ''1025''"
  by code_simp

lemma addr_test: "JoinHostPort ''localhost'' (Itoa 1025) = ''localhost:1025''"
  by (simp add: JoinHostPort_def Itoa_1025)

lemma connectedOnce_eq:
  "connectedOnce = (None, (NewClient testOpts)\<lparr>client := Some 1\<rparr>,
     [DialContext ''localhost:1025'', SmtpNewClient 0 ''localhost'', Hello 1 ''localhost'',
      StartTLS 1 \<lparr>ServerName = ''localhost'', MinVersion = VersionTLS12\<rparr>,
      Auth 1 (PlainAuth '''' ''integration-test-user'' ''integration-test-password''
                ''localhost'')])"
  by (simp add: connectedOnce_def Connect_def Let_def goesDown_def NewClient_def testOpts_def
      addr_test upgradeStep_def authStep_def)

lemma connected_eq:
  "connected = (None, (NewClient testOpts)\<lparr>client := Some 1\<rparr>,
     [DialContext ''localhost:1025'', SmtpNewClient 0 ''localhost'', Hello 1 ''localhost'',
      StartTLS 1 \<lparr>ServerName = ''localhost'', MinVersion = VersionTLS12\<rparr>,
      Auth 1 (PlainAuth '''' ''integration-test-user'' ''integration-test-password''
                ''localhost'')])"
  by (simp add: connected_def Connect_def Let_def acceptAll_def NewClient_def testOpts_def
      addr_test upgradeStep_def authStep_def)

text \<open>
  C1, as stated, fails. A fresh client connects to a server that then goes down; the
  first Connect succeeds and stores handle 1, the second Connect fails at the dial, and
  the stored handle is still handle 1, not absent.
\<close>

theorem Connect_failure_keeps_prior_handle:
  "fst connectedOnce = None \<and> client (fst (snd connectedOnce)) = Some 1
   \<and> fst connectedTwice =
       Some (Wrapped ''failed to dialer.DialContext, address: localhost:1025''
               (NetError ''connection refused''))
   \<and> client (fst (snd connectedTwice)) = Some 1"
  by (simp add: connectedTwice_def connectedOnce_eq Connect_def Let_def goesDown_def
      NewClient_def testOpts_def addr_test)

text \<open>
  C1, amended. Whenever Connect returns an error, at whatever step, it leaves the client
  exactly as it was: the stored handle is absent if it was absent and is the earlier
  handle if there was one. When Connect returns no error, every call it issued (dial,
  greeting, HELO, STARTTLS, AUTH) was answered without error, so a failing step always
  gives an error, and the stored handle is the one created by this call's smtp.NewClient
  (its position in the log), whatever was stored before. The log only grows.
\<close>

theorem Connect_stores_handle_on_success_only:
  "(fst (Connect srv c t) \<noteq> None \<longrightarrow> fst (snd (Connect srv c t)) = c)
   \<and> (fst (Connect srv c t) = None \<longrightarrow>
        fst (snd (Connect srv c t)) = c\<lparr>client := Some (Suc (length t))\<rparr>
        \<and> answeredOK srv t (drop (length t) (snd (snd (Connect srv c t)))))
   \<and> take (length t) (snd (snd (Connect srv c t))) = t"
  by (auto simp: Connect_def Let_def upgradeStep_def authStep_def
      split: option.splits prod.splits if_splits)

theorem Connect_stores_handle_on_success_only_witness:
  "fst connectedTwice \<noteq> None \<and> fst (snd connectedTwice) = fst (snd connectedOnce)
   \<and> fst connectedOnce = None
   \<and> fst (snd connectedOnce) = (NewClient testOpts)\<lparr>client := Some 1\<rparr>"
  using Connect_stores_handle_on_success_only
          [of goesDown "fst (snd connectedOnce)" "snd (snd connectedOnce)"]
    Connect_stores_handle_on_success_only [of goesDown "NewClient testOpts" "[]"]
  by (simp add: connectedTwice_def connectedOnce_eq Connect_def Let_def goesDown_def
      NewClient_def testOpts_def addr_test flip: connectedOnce_def)

text \<open>
  C2, as stated, fails. A fresh client connects to a server that accepts everything and
  is then closed: Close succeeds and the stored handle is still handle 1.
\<close>

theorem Close_keeps_handle:
  "client (fst (snd connected)) = Some 1 \<and> fst closed = None
   \<and> client (fst (snd closed)) = Some 1"
  by (simp add: closed_def connected_eq Close_def acceptAll_def)

text \<open>
  C2, amended. Close succeeds without any call when no handle exists; when a handle
  exists it issues exactly one QUIT over it and returns what QUIT returned. In every
  case Close leaves the client as it was: the handle stays stored whether QUIT succeeded
  or failed.
\<close>

theorem Close_quits_and_keeps_client:
  "(client c = None \<longrightarrow> Close srv c t = (None, c, t))
   \<and> (\<forall>h. client c = Some h \<longrightarrow>
          fst (Close srv c t) = respond srv t (Quit h)
          \<and> snd (snd (Close srv c t)) = t @ [Quit h])
   \<and> fst (snd (Close srv c t)) = c"
  by (simp add: Close_def split: option.splits)

theorem Close_quits_and_keeps_client_witness:
  "fst (Close rejectsQuit (fst (snd connected)) (snd (snd connected)))
     = Some (NetError ''421 service not available'')
   \<and> snd (snd (Close rejectsQuit (fst (snd connected)) (snd (snd connected))))
     = snd (snd connected) @ [Quit 1]
   \<and> client (fst (snd (Close rejectsQuit (fst (snd connected)) (snd (snd connected)))))
     = Some 1
   \<and> Close rejectsQuit (NewClient testOpts) [] = (None, NewClient testOpts, [])"
  using Close_quits_and_keeps_client [of "fst (snd connected)" rejectsQuit "snd (snd connected)"]
    Close_quits_and_keeps_client [of "NewClient testOpts" rejectsQuit "[]"]
  by (simp add: connected_eq rejectsQuit_def NewClient_def)

text \<open>
  C4. With an authentication strategy configured, when the dial, the greeting, HELO and
  the upgrade (if STARTTLS is advertised) have succeeded and the server does not
  advertise AUTH at that point, Connect returns ErrUnsupportedAuthExt, leaves the client
  as it was, and has issued no authentication exchange: the log ends with the upgrade.
\<close>

theorem Connect_unsupported_auth:
  fixes srv :: server and c :: Client and t :: log
  defines "host \<equiv> Host (opts c)"
  defines "addr \<equiv> JoinHostPort host (Itoa (Port (opts c)))"
  defines "h \<equiv> Suc (length t)"
  defines "greeted \<equiv> t @ [DialContext addr, SmtpNewClient (length t) host, Hello h host]"
  defines "config \<equiv> \<lparr>ServerName = host, MinVersion = VersionTLS12\<rparr>"
  defines "upgraded \<equiv>
    (if advertises srv greeted h extStartTLS then greeted @ [StartTLS h config] else greeted)"
  assumes configured: "auth c \<noteq> None"
    and dial: "respond srv t (DialContext addr) = None"
    and greeting: "respond srv (t @ [DialContext addr]) (SmtpNewClient (length t) host) = None"
    and hello:
      "respond srv (t @ [DialContext addr, SmtpNewClient (length t) host]) (Hello h host) = None"
    and upgrade:
      "advertises srv greeted h extStartTLS \<longrightarrow> respond srv greeted (StartTLS h config) = None"
    and no_auth: "\<not> advertises srv upgraded h extAuth"
  shows "Connect srv c t = (Some ErrUnsupportedAuthExt, c, upgraded)
         \<and> \<not> list_ex isAuth (drop (length t) upgraded)"
proof -
  from configured obtain au where au: "auth c = Some au"
    by auto
  show ?thesis
  proof (cases "advertises srv greeted h extStartTLS")
    case True
    with assms au show ?thesis
      by (simp add: Connect_def Let_def upgradeStep_def authStep_def)
  next
    case False
    with assms au show ?thesis
      by (simp add: Connect_def Let_def upgradeStep_def authStep_def)
  qed
qed

theorem Connect_unsupported_auth_witness:
  "Connect withoutAuth (NewClient testOpts) [] =
     (Some ErrUnsupportedAuthExt, NewClient testOpts,
      [DialContext ''localhost:1025'', SmtpNewClient 0 ''localhost'', Hello 1 ''localhost'',
       StartTLS 1 \<lparr>ServerName = ''localhost'', MinVersion = VersionTLS12\<rparr>])
   \<and> \<not> list_ex isAuth
         [DialContext ''localhost:1025'', SmtpNewClient 0 ''localhost'', Hello 1 ''localhost'',
          StartTLS 1 \<lparr>ServerName = ''localhost'', MinVersion = VersionTLS12\<rparr>]"
  using Connect_unsupported_auth [of "NewClient testOpts" withoutAuth "[]"]
  by (simp add: withoutAuth_def NewClient_def testOpts_def addr_test)




section \<open>Base64: encoding and decoding are inverse\<close>

lemma length_encodeStd: "length encodeStd = 64"
  by (simp add: encodeStd_def)

lemma distinct_encodeStd: "distinct encodeStd"
  by (simp add: encodeStd_def)

lemma encodeStd_plain: "padChar \<notin> set encodeStd \<and> CR \<notin> set encodeStd \<and> LF \<notin> set encodeStd"
  by (simp add: encodeStd_def)

lemma decodeMap_nth: "i < 64 \<Longrightarrow> decodeMap (encodeStd ! i) = Some i"
  unfolding decodeMap_def
  using map_of_zip_nth [of encodeStd "[0..<64]" i] length_encodeStd distinct_encodeStd
  by simp

lemma mask_6: "(63::nat) = mask 6"
  by (simp add: mask_eq_exp_minus_1)

lemma and_3F: "(x::nat) AND 0x3F = x mod 64"
  by (simp only: mask_6 flip: take_bit_eq_mask) (simp add: take_bit_eq_mod)

lemma sextet_index: "sextet val k = encodeStd ! (val div 2 ^ k mod 64)"
  by (simp add: sextet_def and_3F drop_bit_eq_div)

lemma sextet_in_alphabet: "sextet val k \<in> set encodeStd"
  by (simp add: sextet_index length_encodeStd)

lemma sextet_plain: "sextet val k \<noteq> padChar \<and> sextet val k \<noteq> CR \<and> sextet val k \<noteq> LF"
  using sextet_in_alphabet [of val k] encodeStd_plain by metis

lemma decodeMap_sextet: "decodeMap (sextet val k) = Some (val div 2 ^ k mod 64)"
  by (simp add: sextet_index decodeMap_nth)

lemma or_is_add:
  fixes a b :: nat
  assumes b: "b < 2 ^ n"
  shows "push_bit n a OR b = a * 2 ^ n + b"
proof -
  have "push_bit n a + b = push_bit n a OR b"
  proof (rule disjunctive_add)
    fix k
    show "\<not> bit (push_bit n a) k \<or> \<not> bit b k"
    proof (cases "k < n")
      case True
      then show ?thesis by (simp add: bit_push_bit_iff)
    next
      case False
      then have "2 ^ n \<le> (2::nat) ^ k" by simp
      with b have "b < 2 ^ k" by linarith
      then have "\<not> bit b k" by (simp add: bit_iff_odd)
      then show ?thesis by simp
    qed
  qed
  then show ?thesis by (simp add: push_bit_eq_mult)
qed

lemma assemble_sum:
  assumes "x < 64" "y < 64" "z < 64"
  shows "assemble w x y z = w * 262144 + x * 4096 + y * 64 + z"
proof -
  have 1: "push_bit 6 y OR z = y * 64 + z"
    using or_is_add [of z 6 y] assms by simp
  have "y * 64 + z < 2 ^ 12"
    using assms by simp
  then have 2: "push_bit 12 x OR (y * 64 + z) = x * 4096 + (y * 64 + z)"
    using or_is_add [of "y * 64 + z" 12 x] by simp
  have "x * 4096 + (y * 64 + z) < 2 ^ 18"
    using assms by simp
  then have 3: "push_bit 18 w OR (x * 4096 + (y * 64 + z)) = w * 262144 + (x * 4096 + (y * 64 + z))"
    using or_is_add [of "x * 4096 + (y * 64 + z)" 18 w] by simp
  show ?thesis
    by (simp add: assemble_def 1 2 3)
qed

lemma pack_sum:
  assumes "b < 256" "c < 256"
  shows "push_bit 16 a OR push_bit 8 b OR c = a * 65536 + b * 256 + (c::nat)"
proof -
  have 1: "push_bit 8 b OR c = b * 256 + c"
    using or_is_add [of c 8 b] assms by simp
  have "b * 256 + c < 2 ^ 16"
    using assms by simp
  then have "push_bit 16 a OR (b * 256 + c) = a * 65536 + (b * 256 + c)"
    using or_is_add [of "b * 256 + c" 16 a] by simp
  with 1 show ?thesis by simp
qed

lemma quantum_sum:
  fixes v :: nat
  assumes "v < 16777216"
  shows "assemble (v div 262144 mod 64) (v div 4096 mod 64) (v div 64 mod 64) (v mod 64) = v"
proof -
  have d2: "v div 4096 = v div 64 div 64" and d3: "v div 262144 = v div 64 div 64 div 64"
    by (simp_all add: div_mult2_eq)
  have top: "v div 262144 mod 64 = v div 262144"
    using assms by (simp add: less_mult_imp_div_less)
  have "v = v div 64 * 64 + v mod 64"
    by simp
  also have "v div 64 = v div 4096 * 64 + v div 64 mod 64"
    by (simp add: d2)
  also have "v div 4096 = v div 262144 * 64 + v div 4096 mod 64"
    by (simp add: d2 d3)
  finally have "v = v div 262144 * 262144 + v div 4096 mod 64 * 4096 + v div 64 mod 64 * 64 + v mod 64"
    by (simp add: algebra_simps)
  then show ?thesis
    by (simp add: assemble_sum top)
qed

lemma unpack:
  fixes A B C :: nat
  assumes "B < 256" "C < 256"
  shows "char_of (drop_bit 16 (A * 65536 + B * 256 + C)) = char_of A"
    and "char_of (drop_bit 8 (A * 65536 + B * 256 + C)) = char_of B"
    and "char_of (A * 65536 + B * 256 + C) = char_of C"
proof -
  have "(A * 65536 + B * 256 + C) div 65536 = A"
    using assms by simp
  then show "char_of (drop_bit 16 (A * 65536 + B * 256 + C)) = char_of A"
    by (simp add: drop_bit_eq_div)
  have "(A * 65536 + B * 256 + C) div 256 = A * 256 + B"
    using assms by simp
  then show "char_of (drop_bit 8 (A * 65536 + B * 256 + C)) = char_of B"
    by (simp add: drop_bit_eq_div)
  have "A * 65536 + B * 256 + C = C + (A * 256 + B) * 256"
    by simp
  then have "(A * 65536 + B * 256 + C) mod 256 = C mod 256"
    by (simp only: mod_mult_self1)
  then have "(A * 65536 + B * 256 + C) mod 256 = C"
    using assms by simp
  then show "char_of (A * 65536 + B * 256 + C) = char_of C"
    by simp
qed

lemma decode_full:
  fixes a b c :: char
  defines "val \<equiv> push_bit 16 (of_char a) OR push_bit 8 (of_char b) OR (of_char c :: nat)"
  shows "assemble (val div 262144 mod 64) (val div 4096 mod 64) (val div 64 mod 64)
           (val mod 64) = val"
    and "char_of (drop_bit 16 val) = a"
    and "char_of (drop_bit 8 val) = b"
    and "char_of val = c"
proof -
  have v: "val = of_char a * 65536 + of_char b * 256 + of_char c"
    unfolding val_def by (rule pack_sum) simp_all
  have "of_char a * 65536 + of_char b * 256 + (of_char c :: nat) < 256 * 65536"
    using nat_of_char_less_256 [of a] nat_of_char_less_256 [of b] nat_of_char_less_256 [of c]
    by linarith
  then have "val < 16777216"
    by (simp add: v)
  then show "assemble (val div 262144 mod 64) (val div 4096 mod 64) (val div 64 mod 64)
               (val mod 64) = val"
    by (rule quantum_sum)
  show "char_of (drop_bit 16 val) = a"
    using unpack(1) [of "of_char b" "of_char c" "of_char a"] by (simp add: v)
  show "char_of (drop_bit 8 val) = b"
    using unpack(2) [of "of_char b" "of_char c" "of_char a"] by (simp add: v)
  show "char_of val = c"
    using unpack(3) [of "of_char b" "of_char c" "of_char a"] by (simp add: v)
qed

lemma decode_two:
  fixes a b :: char
  defines "val \<equiv> push_bit 16 (of_char a) OR push_bit 8 (of_char b :: nat)"
  shows "assemble (val div 262144 mod 64) (val div 4096 mod 64) (val div 64 mod 64) 0 = val"
    and "char_of (drop_bit 16 val) = a"
    and "char_of (drop_bit 8 val) = b"
proof -
  have "val = push_bit 16 (of_char a) OR push_bit 8 (of_char b) OR (of_char (CHR 0x00) :: nat)"
    by (simp add: val_def)
  note full = decode_full [of a b "CHR 0x00", folded this]
  have "val = of_char a * 65536 + of_char b * 256"
    using pack_sum [of "of_char b" 0 "of_char a"] by (simp add: val_def)
  then have "val mod 64 = 0"
    by (simp add: mod_eq_0_iff_dvd)
  with full(1) show "assemble (val div 262144 mod 64) (val div 4096 mod 64)
      (val div 64 mod 64) 0 = val"
    by simp
  from full(2) show "char_of (drop_bit 16 val) = a" .
  from full(3) show "char_of (drop_bit 8 val) = b" .
qed

lemma decode_one:
  fixes a :: char
  defines "val \<equiv> push_bit 16 (of_char a :: nat)"
  shows "assemble (val div 262144 mod 64) (val div 4096 mod 64) 0 0 = val"
    and "char_of (drop_bit 16 val) = a"
proof -
  have "val = push_bit 16 (of_char a) OR push_bit 8 (of_char (CHR 0x00) :: nat)"
    by (simp add: val_def)
  note two = decode_two [of a "CHR 0x00", folded this]
  have "val = of_char a * 1024 * 64"
    by (simp add: val_def push_bit_eq_mult)
  then have "val div 64 mod 64 = 0"
    by simp
  with two(1) show "assemble (val div 262144 mod 64) (val div 4096 mod 64) 0 0 = val"
    by simp
  from two(2) show "char_of (drop_bit 16 val) = a" .
qed

lemma decodeQuanta_full:
  assumes "assemble (val div 262144 mod 64) (val div 4096 mod 64) (val div 64 mod 64)
             (val mod 64) = val"
    and "decodeQuanta others = Some bytes"
  shows "decodeQuanta (sextet val 18 # sextet val 12 # sextet val 6 # sextet val 0 # others)
           = Some (char_of (drop_bit 16 val) # char_of (drop_bit 8 val) # char_of val # bytes)"
  using assms sextet_plain [of val 0] by (simp add: decodeMap_sextet)

lemma decodeQuanta_two:
  assumes "assemble (val div 262144 mod 64) (val div 4096 mod 64) (val div 64 mod 64) 0 = val"
  shows "decodeQuanta [sextet val 18, sextet val 12, sextet val 6, padChar]
           = Some [char_of (drop_bit 16 val), char_of (drop_bit 8 val)]"
  using assms sextet_plain [of val 6] by (simp add: decodeMap_sextet)

lemma decodeQuanta_one:
  assumes "assemble (val div 262144 mod 64) (val div 4096 mod 64) 0 0 = val"
  shows "decodeQuanta [sextet val 18, sextet val 12, padChar, padChar]
           = Some [char_of (drop_bit 16 val)]"
  using assms by (simp add: decodeMap_sextet)

lemma decodeQuanta_Encode: "decodeQuanta (Encode d) = Some d"
proof (induction d rule: Encode.induct)
  case (1 a b c rest)
  define val :: nat where "val = push_bit 16 (of_char a) OR push_bit 8 (of_char b) OR of_char c"
  note bytes = decode_full [of a b c, folded val_def]
  have "Encode (a # b # c # rest)
          = sextet val 18 # sextet val 12 # sextet val 6 # sextet val 0 # Encode rest"
    by (simp only: Encode.simps Let_def val_def append.simps)
  moreover have "decodeQuanta
      (sextet val 18 # sextet val 12 # sextet val 6 # sextet val 0 # Encode rest)
        = Some (char_of (drop_bit 16 val) # char_of (drop_bit 8 val) # char_of val # rest)"
    using bytes(1) "1.IH" by (rule decodeQuanta_full)
  ultimately show ?case
    by (simp only: bytes)
next
  case (2 a b)
  define val :: nat where "val = push_bit 16 (of_char a) OR push_bit 8 (of_char b)"
  note bytes = decode_two [of a b, folded val_def]
  have "Encode [a, b] = [sextet val 18, sextet val 12, sextet val 6, padChar]"
    by (simp only: Encode.simps Let_def val_def)
  moreover have "decodeQuanta [sextet val 18, sextet val 12, sextet val 6, padChar]
        = Some [char_of (drop_bit 16 val), char_of (drop_bit 8 val)]"
    using bytes(1) by (rule decodeQuanta_two)
  ultimately show ?case
    by (simp only: bytes)
next
  case (3 a)
  define val :: nat where "val = push_bit 16 (of_char a)"
  note bytes = decode_one [of a, folded val_def]
  have "Encode [a] = [sextet val 18, sextet val 12, padChar, padChar]"
    by (simp only: Encode.simps Let_def val_def)
  moreover have "decodeQuanta [sextet val 18, sextet val 12, padChar, padChar]
        = Some [char_of (drop_bit 16 val)]"
    using bytes(1) by (rule decodeQuanta_one)
  ultimately show ?case
    by (simp only: bytes)
next
  case 4
  show ?case by simp
qed

lemma Encode_alphabet: "set (Encode d) \<subseteq> insert padChar (set encodeStd)"
  by (induction d rule: Encode.induct) (simp_all add: Let_def sextet_in_alphabet)

lemma Encode_no_CR_LF: "CR \<notin> set (Encode d) \<and> LF \<notin> set (Encode d)"
  using Encode_alphabet [of d] encodeStd_plain by auto

lemma DecodeString_Encode: "DecodeString (Encode d) = Some d"
proof -
  have "filter (\<lambda>ch. ch \<noteq> CR \<and> ch \<noteq> LF) (Encode d) = Encode d"
    using Encode_no_CR_LF [of d] by (auto simp: filter_id_conv)
  then show ?thesis
    by (simp add: DecodeString_def decodeQuanta_Encode)
qed

lemma EncodedLen_step: "EncodedLen (Suc (Suc (Suc n))) = EncodedLen n + 4"
  unfolding EncodedLen_def by presburger

lemma length_Encode: "length (Encode d) = EncodedLen (length d)"
proof (induction d rule: Encode.induct)
  case (1 a b c rest)
  then show ?case
    by (simp add: Let_def EncodedLen_step)
qed (simp_all add: Let_def EncodedLen_def)

section \<open>Build\<close>

lemma writeAttachments_parts:
  "writeAttachments atchs buf
     = buf @ concat (map (\<lambda>a. specPartHead (name a) @ Encode (data a)) atchs)"
  by (induction atchs arbitrary: buf) (simp_all add: specPartHead_def crlfLines_def)

lemma Build_layout:
  "Build e = specHeaderBlock (to e) (from' e) (subject e) @ specBodyPart (body e)
       @ concat (map (\<lambda>a. specPartHead (name a) @ Encode (data a)) (attachments e))
       @ specClosing"
  by (simp add: Build_def Let_def writeAttachments_parts specHeaderBlock_def specBodyPart_def
      specClosing_def crlfLines_def)

lemma attachments_attachAll: "attachments (attachAll e atchs) = attachments e @ atchs"
  unfolding attachAll_def
  by (induction atchs arbitrary: e) (simp_all add: Attach_def)

lemma attachAll_fields:
  "to (attachAll e atchs) = to e \<and> from' (attachAll e atchs) = from' e
   \<and> subject (attachAll e atchs) = subject e \<and> body (attachAll e atchs) = body e"
  unfolding attachAll_def
  by (induction atchs arbitrary: e) (simp_all add: Attach_def)

lemma Encode_test: "Encode ''attachment_1.txt'' = ''YXR0YWNobWVudF8xLnR4dA==''"
  by (simp add: Let_def sextet_def encodeStd_def)

lemma crlfOnly_weaken: "crlfOnly (CHR 0x00) s \<Longrightarrow> crlfOnly prev s"
  by (cases s) auto

lemma crlfOnly_append:
  "crlfOnly prev (xs @ ys)
     \<longleftrightarrow> crlfOnly prev xs \<and> crlfOnly (if xs = [] then prev else last xs) ys"
  by (induction xs arbitrary: prev) auto

lemma noBareLF_append:
  assumes "noBareLF xs" and "noBareLF ys"
  shows "noBareLF (xs @ ys)"
  using assms crlfOnly_weaken [of ys "if xs = [] then CHR 0x00 else last xs"]
  by (simp add: noBareLF_def crlfOnly_append)

lemma noBareLF_concat: "(\<forall>x \<in> set xss. noBareLF x) \<Longrightarrow> noBareLF (concat xss)"
  by (induction xss) (simp_all add: noBareLF_append, simp add: noBareLF_def)

lemma noBareLF_line: "noBareLF l \<Longrightarrow> noBareLF (l @ [CR, LF])"
  by (rule noBareLF_append) (simp_all add: noBareLF_def)

lemma noBareLF_crlfLines: "(\<forall>l \<in> set ls. noBareLF l) \<Longrightarrow> noBareLF (crlfLines ls)"
  unfolding crlfLines_def by (rule noBareLF_concat) (auto simp: noBareLF_line)

lemma noBareLF_without_LF: "LF \<notin> set s \<Longrightarrow> noBareLF s"
proof -
  have "LF \<notin> set s \<Longrightarrow> crlfOnly prev s" for prev
    by (induction s arbitrary: prev) auto
  then show "LF \<notin> set s \<Longrightarrow> noBareLF s"
    by (simp add: noBareLF_def)
qed

lemma noBareLF_Join:
  "(\<forall>x \<in> set xs. noBareLF x) \<Longrightarrow> noBareLF sep \<Longrightarrow> noBareLF (Join xs sep)"
  by (induction xs sep rule: Join.induct) (simp_all add: noBareLF_append, simp add: noBareLF_def)

lemma noBareLF_nth:
  "noBareLF s \<longleftrightarrow> (\<forall>i < length s. s ! i = LF \<longrightarrow> 0 < i \<and> s ! (i - 1) = CR)"
proof -
  have "crlfOnly prev s \<longleftrightarrow>
          (\<forall>i < length s. s ! i = LF \<longrightarrow> (if i = 0 then prev = CR else s ! (i - 1) = CR))"
    for prev
  proof (induction s arbitrary: prev)
    case Nil
    show ?case by simp
  next
    case (Cons ch rest)
    show ?case
      by (auto simp: Cons.IH less_Suc_eq_0_disj nth_Cons')
  qed
  from this [of "CHR 0x00"] show ?thesis
    by (auto simp: noBareLF_def split: if_splits)
qed

lemma noBareLF_specHeaderBlock:
  assumes "noBareLF sndr" and "\<forall>r \<in> set rcpts. noBareLF r" and "noBareLF subj"
  shows "noBareLF (specHeaderBlock rcpts sndr subj)"
proof -
  have "noBareLF (''From: '' @ sndr)"
    using assms(1) by (intro noBareLF_append) (simp_all add: noBareLF_def)
  moreover have "noBareLF (''To: '' @ Join rcpts '';'')"
    using assms(2) by (intro noBareLF_append noBareLF_Join) (simp_all add: noBareLF_def)
  moreover have "noBareLF (''Subject: '' @ subj)"
    using assms(3) by (intro noBareLF_append) (simp_all add: noBareLF_def)
  moreover have "noBareLF ''MIME-Version: 1.0''"
    and "noBareLF ''Content-Type: multipart/mixed; boundary=mail-boundary''"
    by (simp_all add: noBareLF_def)
  ultimately show ?thesis
    unfolding specHeaderBlock_def by (intro noBareLF_crlfLines) simp
qed

lemma noBareLF_specBodyPart: "noBareLF txt \<Longrightarrow> noBareLF (specBodyPart txt)"
  unfolding specBodyPart_def
  by (intro noBareLF_append noBareLF_crlfLines) (simp_all add: noBareLF_def)

lemma noBareLF_specPartHead: "noBareLF nm \<Longrightarrow> noBareLF (specPartHead nm)"
proof -
  assume nm: "noBareLF nm"
  have "noBareLF (''Content-Disposition: attachment; filename='' @ nm)"
    using nm by (intro noBareLF_append) (simp_all add: noBareLF_def)
  moreover have "noBareLF (''Content-ID: <'' @ nm @ ''>'')"
    using nm by (intro noBareLF_append) (simp_all add: noBareLF_def)
  moreover have "noBareLF []" and "noBareLF ''--mail-boundary''"
    and "noBareLF (''Content-Type: text/plain; charset='' @ [CHR 0x22] @ ''utf-8'' @ [CHR 0x22])"
    and "noBareLF ''Content-Transfer-Encoding: base64''"
    by (simp_all add: noBareLF_def)
  ultimately show ?thesis
    unfolding specPartHead_def by (intro noBareLF_crlfLines) simp
qed

lemma noBareLF_specClosing: "noBareLF specClosing"
  by (simp add: specClosing_def crlfLines_def noBareLF_def)

lemma noBareLF_Build:
  assumes "noBareLF (from' e)" and "\<forall>r \<in> set (to e). noBareLF r" and "noBareLF (subject e)"
    and "noBareLF (body e)" and "\<forall>a \<in> set (attachments e). noBareLF (name a)"
  shows "noBareLF (Build e)"
proof -
  have "noBareLF (specPartHead (name a) @ Encode (data a))" if "a \<in> set (attachments e)" for a
  proof (rule noBareLF_append)
    show "noBareLF (specPartHead (name a))"
      using that assms(5) by (simp add: noBareLF_specPartHead)
    show "noBareLF (Encode (data a))"
      using Encode_no_CR_LF [of "data a"] by (simp add: noBareLF_without_LF)
  qed
  then have "noBareLF (concat (map (\<lambda>a. specPartHead (name a) @ Encode (data a))
      (attachments e)))"
    by (intro noBareLF_concat) auto
  then show ?thesis
    unfolding Build_layout
    using assms(1-4)
    by (intro noBareLF_append noBareLF_specHeaderBlock noBareLF_specBodyPart
        noBareLF_specClosing)
qed

section \<open>Build: the claims\<close>

text \<open>
  C6. For recipients to@domain.com, sender from@domain.com, subject S, body B and no
  attachment, Build produces exactly these bytes: the five header lines, each ended by
  CRLF, a blank line, the opening boundary, the text/plain part with B, a blank line and
  the closing boundary, which is the end of the output. There is no attachment part.
\<close>

theorem Build_scenario:
  "Build (NewEmail [''to@domain.com''] ''from@domain.com'' ''S'' ''B'') =
     ''From: from@domain.com'' @ [CR, LF] @
     ''To: to@domain.com'' @ [CR, LF] @
     ''Subject: S'' @ [CR, LF] @
     ''MIME-Version: 1.0'' @ [CR, LF] @
     ''Content-Type: multipart/mixed; boundary=mail-boundary'' @ [CR, LF] @
     [CR, LF] @
     ''--mail-boundary'' @ [CR, LF] @
     ''Content-Type: text/plain; charset='' @ [CHR 0x22] @ ''utf-8'' @ [CHR 0x22] @ [CR, LF] @
     [CR, LF] @
     ''B'' @ [CR, LF] @
     [CR, LF] @
     ''--mail-boundary--''"
  by (simp add: Build_def Let_def NewEmail_def)

text \<open>
  C7. For every message, Build writes the header block, the body part, then one part per
  attachment, in the order of the list of attachments, and the closing boundary; the
  list of attachments of a message built by NewEmail and N calls of Attach is the N
  attachments in the order of the calls. The base64 text of each part is the standard
  padded encoding of the attachment's bytes, it has the length of the slice Build
  allocates for it, and decoding it gives the attachment's bytes back.
\<close>

theorem Build_attachment_parts:
  "Build e = specHeaderBlock (to e) (from' e) (subject e) @ specBodyPart (body e)
       @ concat (map (\<lambda>a. specPartHead (name a) @ Encode (data a)) (attachments e))
       @ specClosing
   \<and> (\<forall>a \<in> set (attachments e).
         DecodeString (Encode (data a)) = Some (data a)
         \<and> length (Encode (data a)) = EncodedLen (length (data a)))
   \<and> attachments (attachAll (NewEmail rcpts sndr subj txt) atchs) = atchs"
  by (simp add: Build_layout DecodeString_Encode length_Encode attachments_attachAll
      NewEmail_def)

theorem Build_attachment_parts_witness:
  "Build (attachAll (NewEmail [''test-1@outlook.com'', ''test-2@gmail.com'', ''test-3@mail.ru'']
            ''from@outlook.com'' ''test subject'' ''test body'') [testAttachment]) =
     ''From: from@outlook.com'' @ [CR, LF] @
     ''To: test-1@outlook.com;test-2@gmail.com;test-3@mail.ru'' @ [CR, LF] @
     ''Subject: test subject'' @ [CR, LF] @
     ''MIME-Version: 1.0'' @ [CR, LF] @
     ''Content-Type: multipart/mixed; boundary=mail-boundary'' @ [CR, LF] @
     [CR, LF] @
     ''--mail-boundary'' @ [CR, LF] @
     ''Content-Type: text/plain; charset='' @ [CHR 0x22] @ ''utf-8'' @ [CHR 0x22] @ [CR, LF] @
     [CR, LF] @
     ''test body'' @ [CR, LF] @
     [CR, LF] @
     ''--mail-boundary'' @ [CR, LF] @
     ''Content-Type: text/plain; charset='' @ [CHR 0x22] @ ''utf-8'' @ [CHR 0x22] @ [CR, LF] @
     ''Content-Transfer-Encoding: base64'' @ [CR, LF] @
     ''Content-Disposition: attachment; filename=attachment_1.txt'' @ [CR, LF] @
     ''Content-ID: <attachment_1.txt>'' @ [CR, LF] @
     [CR, LF] @
     ''YXR0YWNobWVudF8xLnR4dA=='' @ [CR, LF] @
     [CR, LF] @
     ''--mail-boundary--''
   \<and> DecodeString ''YXR0YWNobWVudF8xLnR4dA=='' = Some ''attachment_1.txt''"
  using Build_attachment_parts
          [of "attachAll (NewEmail [''test-1@outlook.com'', ''test-2@gmail.com'', ''test-3@mail.ru'']
                 ''from@outlook.com'' ''test subject'' ''test body'') [testAttachment]"]
  by (simp add: attachments_attachAll attachAll_fields NewEmail_def testAttachment_def
      Encode_test specHeaderBlock_def specBodyPart_def specPartHead_def specClosing_def
      crlfLines_def del: Encode.simps)

text \<open>
  C8, as stated, fails. The message has a body and attachment data without any bare line
  feed (it has no attachment), and a sender with a line feed in it: byte 7 of the
  output is a line feed and byte 6 is not a carriage return.
\<close>

theorem Build_bare_LF_from_sender:
  "noBareLF (body injectedEmail) \<and> attachments injectedEmail = []
   \<and> 7 < length (Build injectedEmail)
   \<and> Build injectedEmail ! 7 = LF \<and> Build injectedEmail ! 6 \<noteq> CR"
  by (simp add: injectedEmail_def NewEmail_def Build_def Let_def noBareLF_def)

text \<open>
  C8, amended. For every message whose sender, recipients, subject, body text and
  attachment names contain no bare line feed, no line feed of the output of Build comes
  without a carriage return right before it. Nothing is asked of the attachment data,
  whose base64 text has no line feed at all.
\<close>

theorem Build_CRLF_only:
  assumes "noBareLF (from' e)" and "\<forall>r \<in> set (to e). noBareLF r" and "noBareLF (subject e)"
    and "noBareLF (body e)" and "\<forall>a \<in> set (attachments e). noBareLF (name a)"
  shows "\<forall>i < length (Build e). Build e ! i = LF \<longrightarrow> 0 < i \<and> Build e ! (i - 1) = CR"
  using noBareLF_Build [OF assms] by (simp add: noBareLF_nth)

theorem Build_CRLF_only_witness:
  "noBareLF (from' (Attach scenarioEmail ''notes.txt'' [LF, LF]))
   \<and> noBareLF (subject (Attach scenarioEmail ''notes.txt'' [LF, LF]))
   \<and> noBareLF (body (Attach scenarioEmail ''notes.txt'' [LF, LF]))
   \<and> Build (Attach scenarioEmail ''notes.txt'' [LF, LF]) ! 22 = LF
   \<and> Build (Attach scenarioEmail ''notes.txt'' [LF, LF]) ! 21 = CR"
  using Build_CRLF_only [of "Attach scenarioEmail ''notes.txt'' [LF, LF]", rule_format, of 22]
  by (simp add: scenarioEmail_def NewEmail_def Attach_def noBareLF_def Build_layout
      specHeaderBlock_def crlfLines_def)

end
